theory Spec2Isabelle
  imports Main "HOL-Library.AList"
begin

section \<open>Python strings\<close>

text \<open>
  The script \<^verbatim>\<open>scripts/functional_analysis.py\<close> works on Python \<^verbatim>\<open>str\<close> values. A string
  is modelled as a \<^typ>\<open>string\<close> whose characters are the code points below 256.
  Console output (\<^verbatim>\<open>print\<close>) has no influence on any returned value or written file and is
  left out of the model.
\<close>

definition comma :: char where
  "comma = CHR '',''"

definition newline :: char where
  "newline = CHR 0x0A"

text \<open>\<^verbatim>\<open>str.isspace\<close> on the code points below 256: TAB, LF, VT, FF, CR, FS, GS, RS, US,
  the blank, NEL and the no-break space.\<close>

definition is_space :: "char \<Rightarrow> bool" where
  "is_space c \<longleftrightarrow>
     c \<in> set [CHR 0x09, CHR 0x0A, CHR 0x0B, CHR 0x0C, CHR 0x0D, CHR 0x1C, CHR 0x1D, CHR 0x1E,
              CHR 0x1F, CHR 0x20, CHR 0x85, CHR 0xA0]"

text \<open>\<^verbatim>\<open>s.lstrip()\<close>, \<^verbatim>\<open>s.rstrip()\<close> and \<^verbatim>\<open>s.strip()\<close>\<close>

definition lstrip :: "string \<Rightarrow> string" where
  "lstrip s = dropWhile is_space s"

definition rstrip :: "string \<Rightarrow> string" where
  "rstrip s = rev (dropWhile is_space (rev s))"

definition strip :: "string \<Rightarrow> string" where
  "strip s = rstrip (lstrip s)"

text \<open>\<^verbatim>\<open>s.split(sep)\<close> for a separator of one character: one more piece than there are
  separators, empty pieces kept.\<close>

fun split :: "char \<Rightarrow> string \<Rightarrow> string list" where
  "split sep [] = [[]]"
| "split sep (c # cs) =
     (if c = sep then [] # split sep cs
      else case split sep cs of
             t # ts \<Rightarrow> (c # t) # ts
           | [] \<Rightarrow> [[c]])"

text \<open>\<^verbatim>\<open>s.replace(old, new)\<close> for \<^verbatim>\<open>old\<close> and \<^verbatim>\<open>new\<close> of one character each.\<close>

definition replace :: "char \<Rightarrow> char \<Rightarrow> string \<Rightarrow> string" where
  "replace old new s = map (\<lambda>c. if c = old then new else c) s"

text \<open>\<^verbatim>\<open>s.lower()\<close> on the code points below 256: the ASCII capitals and the Latin-1 capitals
  (all of 0xC0 .. 0xDE but the multiplication sign 0xD7) move up by 32.\<close>

definition lower_char :: "char \<Rightarrow> char" where
  "lower_char c =
     (let n = (of_char c :: nat)
      in if (65 \<le> n \<and> n \<le> 90) \<or> (192 \<le> n \<and> n \<le> 222 \<and> n \<noteq> 215) then char_of (n + 32) else c)"

definition lower :: "string \<Rightarrow> string" where
  "lower s = map lower_char s"

section \<open>Outcomes of a call\<close>

text \<open>
  A call of the script returns a value, leaves the process through \<^verbatim>\<open>sys.exit(code)\<close>, or
  lets an exception escape to the interpreter.
\<close>

datatype exc = TypeError | KeyError

datatype 'a outcome = Returns 'a | SysExit int | Raises exc

section \<open>Reading the gene file\<close>

text \<open>
  What \<^verbatim>\<open>open(archivo, 'r')\<close> followed by \<^verbatim>\<open>f.read()\<close> gives: the text of the file, or one of
  the two exceptions that \<^verbatim>\<open>leer_genes\<close> tells apart.
\<close>

datatype read_error = FileNotFoundError | OtherError

type_synonym reader = "string \<Rightarrow> read_error + string"

definition leer_genes :: "reader \<Rightarrow> string \<Rightarrow> string list outcome" where
  "leer_genes leer archivo =
     (case leer archivo of
        Inl FileNotFoundError \<Rightarrow> SysExit 1
      | Inl OtherError \<Rightarrow> SysExit 1
      | Inr contenido \<Rightarrow>
          Returns
            (if comma \<in> set contenido
             then [strip gene. gene \<leftarrow> split comma (replace newline comma contenido), strip gene \<noteq> []]
             else [strip line. line \<leftarrow> split newline contenido, strip line \<noteq> []]))"

text \<open>
  The reading of the format in words: the text is cut at every separator character, each
  piece is stripped, and the pieces that are empty after stripping are dropped.
\<close>

fun pieces :: "(char \<Rightarrow> bool) \<Rightarrow> string \<Rightarrow> string list" where
  "pieces is_sep [] = [[]]"
| "pieces is_sep (c # cs) =
     (if is_sep c then [] # pieces is_sep cs
      else case pieces is_sep cs of
             t # ts \<Rightarrow> (c # t) # ts
           | [] \<Rightarrow> [[c]])"

definition tokens :: "(char \<Rightarrow> bool) \<Rightarrow> string \<Rightarrow> string list" where
  "tokens is_sep s = [strip t. t \<leftarrow> pieces is_sep s, strip t \<noteq> []]"

section \<open>Validation of the identifiers against MyGene.info\<close>

text \<open>
  One record of the \<^verbatim>\<open>'out'\<close> list that \<^verbatim>\<open>querymany(..., returnall=True)\<close> returns. The
  script reads two keys of it: \<^verbatim>\<open>'notfound'\<close> and \<^verbatim>\<open>'symbol'\<close>; a key that is absent is
  \<^const>\<open>None\<close>.
\<close>

record hit =
  notfound :: "bool option"
  symbol :: "string option"

text \<open>
  The client \<^verbatim>\<open>mg.querymany\<close>, from the list of terms and the species to the \<^verbatim>\<open>'out'\<close> list,
  or an exception (its message). The scopes and fields are the same in both calls.
\<close>

type_synonym mygene = "string list \<Rightarrow> string \<Rightarrow> string + hit list"

definition species_map :: "(string \<times> string) list" where
  "species_map =
     [(''human'', ''human''), (''mouse'', ''mouse''), (''rat'', ''rat''),
      (''hsapiens'', ''human''), (''mmusculus'', ''mouse''), (''rnorvegicus'', ''rat'')]"

definition species_of :: "string \<Rightarrow> string" where
  "species_of organismo =
     (case map_of species_map (lower organismo) of Some s \<Rightarrow> s | None \<Rightarrow> ''human'')"

text \<open>The dictionary that \<^verbatim>\<open>validar_y_convertir_genes\<close> returns. A Python \<^verbatim>\<open>dict\<close> keeps its
  keys in the order of their first insertion, which is what \<^const>\<open>AList.update\<close> does on an
  association list.\<close>

record validacion =
  validos :: "string list"
  mapping :: "(string \<times> string) list"
  no_encontrados :: "string list"
  advertencias :: "string list"

text \<open>The local lists of the function while the two loops run; \<^const>\<open>validos\<close> is the local
  \<^verbatim>\<open>genes_validos\<close>.\<close>

record locals = validacion +
  genes_a_reintentar :: "string list"

definition locals_init :: locals where
  "locals_init =
     \<lparr>validos = [], mapping = [], no_encontrados = [], advertencias = [], genes_a_reintentar = []\<rparr>"

definition aviso_no_encontrado :: "string \<Rightarrow> string" where
  "aviso_no_encontrado gene = ''Gen no encontrado: '' @ [CHR 0x27] @ gene @ [CHR 0x27]"

definition aviso_sin_conexion :: string where
  "aviso_sin_conexion = ''No se pudo validar genes (sin conexi'' @ [CHR 0xF3] @ ''n)''"

text \<open>The body of the first loop, over \<^verbatim>\<open>zip(genes, results['out'])\<close>.\<close>

fun paso_directo :: "string \<times> hit \<Rightarrow> locals \<Rightarrow> locals" where
  "paso_directo (gene_input, result) l =
     (if notfound result = Some True
      then l\<lparr>genes_a_reintentar := genes_a_reintentar l @ [gene_input]\<rparr>
      else case symbol result of
             Some simbolo \<Rightarrow>
               l\<lparr>validos := validos l @ [simbolo],
                 mapping := AList.update gene_input simbolo (mapping l)\<rparr>
           | None \<Rightarrow> l\<lparr>genes_a_reintentar := genes_a_reintentar l @ [gene_input]\<rparr>)"

text \<open>The body of the second loop, over
  \<^verbatim>\<open>zip(genes_a_reintentar, variantes_mt, results_mt['out'])\<close>.\<close>

fun paso_mt :: "string \<times> string \<times> hit \<Rightarrow> locals \<Rightarrow> locals" where
  "paso_mt (gene_original, gene_mt, result_mt) l =
     (case (notfound result_mt, symbol result_mt) of
        (None, Some simbolo) \<Rightarrow>
          l\<lparr>validos := validos l @ [simbolo],
            mapping := AList.update gene_original simbolo (mapping l)\<rparr>
      | _ \<Rightarrow>
          l\<lparr>no_encontrados := no_encontrados l @ [gene_original],
            advertencias := advertencias l @ [aviso_no_encontrado gene_original]\<rparr>)"

text \<open>The body of the loop of the \<^verbatim>\<open>except\<close> branch of the retry.\<close>

definition paso_fallo :: "string \<Rightarrow> locals \<Rightarrow> locals" where
  "paso_fallo gene_original l =
     l\<lparr>no_encontrados := no_encontrados l @ [gene_original],
       advertencias := advertencias l @ [aviso_no_encontrado gene_original]\<rparr>"

section \<open>Tables, files and the outside world\<close>

text \<open>
  A pandas \<^verbatim>\<open>DataFrame\<close>: its column labels and its rows, a row giving the cell under each
  label. A cell is a text or a value of another kind (\<^typ>\<open>'v\<close>: numbers, lists, ...).
\<close>

datatype 'v cell = Text string | Other 'v

record 'v dataframe =
  columns :: "string list"
  rows :: "(string \<times> 'v cell) list list"

text \<open>\<^verbatim>\<open>pd.DataFrame()\<close> and \<^verbatim>\<open>df.empty\<close> (true when an axis has length 0).\<close>

definition pd_DataFrame :: "'v dataframe" where
  "pd_DataFrame = \<lparr>columns = [], rows = []\<rparr>"

definition df_empty :: "'v dataframe \<Rightarrow> bool" where
  "df_empty df \<longleftrightarrow> columns df = [] \<or> rows df = []"

text \<open>What a file holds after \<^verbatim>\<open>df.to_csv(path, index=False)\<close> or
  \<^verbatim>\<open>df.to_excel(path, index=False, engine='openpyxl')\<close>: the table written, in one of the
  two formats.\<close>

datatype 'v artifact = CSV "'v dataframe" | XLSX "'v dataframe"

text \<open>
  The effects of a run, each a log in the order of the calls: the queries sent to
  MyGene.info (terms, species) and to g:Profiler (organism, query, sources), the directories
  asked of \<^verbatim>\<open>os.makedirs\<close> and the files written (path, content). Creating a directory and
  writing a file are taken to succeed.
\<close>

record 'v world =
  mg_queries :: "(string list \<times> string) list"
  gp_queries :: "(string \<times> string list \<times> string list) list"
  made_dirs :: "string list"
  written :: "(string \<times> 'v artifact) list"

text \<open>\<^verbatim>\<open>os.path.join(a, b)\<close> on a POSIX system.\<close>

definition path_join :: "string \<Rightarrow> string \<Rightarrow> string" where
  "path_join a b =
     (if b \<noteq> [] \<and> hd b = CHR ''/'' then b
      else if a = [] \<or> last a = CHR ''/'' then a @ b
      else a @ ''/'' @ b)"

section \<open>\<^verbatim>\<open>validar_y_convertir_genes\<close>\<close>

text \<open>The terms of the retry: \<^verbatim>\<open>[f"MT-{gene}" for gene in genes_a_reintentar]\<close>.\<close>

definition variantes_mt :: "string list \<Rightarrow> string list" where
  "variantes_mt rs = map (\<lambda>gene. ''MT-'' @ gene) rs"

definition validar_y_convertir_genes ::
    "mygene \<Rightarrow> string list \<Rightarrow> string \<Rightarrow> 'v world \<Rightarrow> validacion outcome \<times> 'v world" where
  "validar_y_convertir_genes mg genes organismo w =
     (let species = species_of organismo;
          w1 = w\<lparr>mg_queries := mg_queries w @ [(genes, species)]\<rparr>
      in case mg genes species of
           Inl e \<Rightarrow>
             (Returns \<lparr>validos = genes,
                       mapping = fold (\<lambda>g. AList.update g g) genes [],
                       no_encontrados = [],
                       advertencias = [aviso_sin_conexion]\<rparr>, w1)
         | Inr out \<Rightarrow>
             let l1 = fold paso_directo (zip genes out) locals_init;
                 vs = variantes_mt (genes_a_reintentar l1);
                 w2 = (if genes_a_reintentar l1 \<noteq> []
                       then w1\<lparr>mg_queries := mg_queries w1 @ [(vs, species)]\<rparr>
                       else w1);
                 l2 = (if genes_a_reintentar l1 \<noteq> []
                       then case mg vs species of
                              Inr out_mt \<Rightarrow>
                                fold paso_mt (zip (genes_a_reintentar l1) (zip vs out_mt)) l1
                            | Inl e \<Rightarrow> fold paso_fallo (genes_a_reintentar l1) l1
                       else l1)
             in if validos l2 = [] then (SysExit 1, w2)
                else (Returns \<lparr>validos = validos l2,
                               mapping = mapping l2,
                               no_encontrados = no_encontrados l2,
                               advertencias = advertencias l2\<rparr>, w2))"

section \<open>\<^verbatim>\<open>analizar_genes\<close>\<close>

text \<open>The client \<^verbatim>\<open>gp.profile\<close>, from the organism, the query and the sources to the table
  it returns (or \<^verbatim>\<open>None\<close>), or an exception. The threshold and the correction method are
  constants of the call.\<close>

type_synonym 'v gprofiler = "string \<Rightarrow> string list \<Rightarrow> string list \<Rightarrow> string + 'v dataframe option"

definition sources :: "string list" where
  "sources = [''GO:BP'', ''KEGG'', ''REAC'']"

definition analizar_genes ::
    "'v gprofiler \<Rightarrow> string list \<Rightarrow> string \<Rightarrow> 'v world \<Rightarrow> 'v dataframe \<times> 'v world" where
  "analizar_genes gp genes organismo w =
     (let w1 = w\<lparr>gp_queries := gp_queries w @ [(organismo, genes, sources)]\<rparr>
      in case gp organismo genes sources of
           Inr (Some resultados) \<Rightarrow>
             if \<not> df_empty resultados then (resultados, w1) else (pd_DataFrame, w1)
         | Inr None \<Rightarrow> (pd_DataFrame, w1)
         | Inl e \<Rightarrow> (pd_DataFrame, w1))"

section \<open>\<^verbatim>\<open>exportar_resultados\<close>\<close>

definition fila_valido :: "string \<times> string \<Rightarrow> (string \<times> 'v cell) list" where
  "fila_valido p =
     (case p of (orig, val) \<Rightarrow>
        [(''gen_input'', Text orig), (''gen_validado'', Text val), (''estado'', Text ''valido''),
         (''notas'', Text (if orig \<noteq> val then ''Convertido de '' @ orig else ''Validado''))])"

definition fila_no_encontrado :: "string \<Rightarrow> (string \<times> 'v cell) list" where
  "fila_no_encontrado gene =
     [(''gen_input'', Text gene), (''gen_validado'', Text ''NA''),
      (''estado'', Text ''no_encontrado''),
      (''notas'', Text ''Gen no encontrado en MyGene.info'')]"

definition df_validacion :: "validacion \<Rightarrow> 'v dataframe" where
  "df_validacion validacion_info =
     \<lparr>columns = [''gen_input'', ''gen_validado'', ''estado'', ''notas''],
      rows = map fila_valido (mapping validacion_info)
             @ map fila_no_encontrado (no_encontrados validacion_info)\<rparr>"

definition bases_datos :: "(string \<times> string) list" where
  "bases_datos =
     [(''GO:BP'', ''GO_BP_resultados.csv''), (''KEGG'', ''KEGG_resultados.csv''),
      (''REAC'', ''REAC_resultados.csv'')]"

text \<open>\<^verbatim>\<open>df[df['source'] == source]\<close>, once \<^verbatim>\<open>'source'\<close> is known to be a column.\<close>

definition df_source :: "'v dataframe \<Rightarrow> string \<Rightarrow> 'v dataframe" where
  "df_source df source = df\<lparr>rows := filter (\<lambda>r. map_of r ''source'' = Some (Text source)) (rows df)\<rparr>"

text \<open>The loop over \<^verbatim>\<open>bases_datos.items()\<close>; \<^verbatim>\<open>df['source']\<close> raises \<^verbatim>\<open>KeyError\<close> when the
  table has no such column.\<close>

fun exportar_fuentes ::
    "(string \<times> string) list \<Rightarrow> 'v dataframe \<Rightarrow> string \<Rightarrow> 'v world \<Rightarrow> unit outcome \<times> 'v world" where
  "exportar_fuentes [] df output_dir w = (Returns (), w)"
| "exportar_fuentes ((source, filename) # rest) df output_dir w =
     (if ''source'' \<notin> set (columns df) then (Raises KeyError, w)
      else if \<not> df_empty (df_source df source)
      then exportar_fuentes rest df output_dir
             (w\<lparr>written := written w @ [(path_join output_dir filename, CSV (df_source df source))]\<rparr>)
      else exportar_fuentes rest df output_dir w)"

definition exportar_resultados ::
    "'v dataframe \<Rightarrow> validacion \<Rightarrow> string \<Rightarrow> 'v world \<Rightarrow> unit outcome \<times> 'v world" where
  "exportar_resultados df validacion_info output_dir w =
     (let w1 = w\<lparr>made_dirs := made_dirs w @ [output_dir]\<rparr>;
          val_file = path_join output_dir ''validacion_genes.csv'';
          w2 = w1\<lparr>written := written w1 @ [(val_file, CSV (df_validacion validacion_info))]\<rparr>
      in if df_empty df then (Returns (), w2)
         else
           let csv_file = path_join output_dir ''resultados_completos.csv'';
               w3 = w2\<lparr>written := written w2 @ [(csv_file, CSV df)]\<rparr>;
               excel_file = path_join output_dir ''resultados_completos.xlsx'';
               w4 = w3\<lparr>written := written w3 @ [(excel_file, XLSX df)]\<rparr>
           in exportar_fuentes bases_datos df output_dir w4)"

section \<open>\<^verbatim>\<open>main\<close>\<close>

text \<open>The namespace that \<^verbatim>\<open>parser.parse_args()\<close> returns. An option that was not given and has
  no default is \<^verbatim>\<open>None\<close>.\<close>

record args =
  arg_input :: "string option"
  arg_genes :: "string list option"
  arg_output :: string
  arg_organism :: string

text \<open>
  \<^verbatim>\<open>main\<close> from the parsed namespace on. With \<^verbatim>\<open>args.input\<close> empty or absent the list is
  \<^verbatim>\<open>args.genes\<close>; if that is \<^verbatim>\<open>None\<close>, the first statement of the validation that uses the
  list (\<^verbatim>\<open>len(genes)\<close>) raises \<^verbatim>\<open>TypeError\<close>.
\<close>

definition genes_input :: "reader \<Rightarrow> args \<Rightarrow> string list option outcome" where
  "genes_input leer a =
     (case arg_input a of
        Some archivo \<Rightarrow>
          if archivo \<noteq> []
          then (case leer_genes leer archivo of
                  Returns gs \<Rightarrow> Returns (Some gs)
                | SysExit code \<Rightarrow> SysExit code
                | Raises e \<Rightarrow> Raises e)
          else Returns (arg_genes a)
      | None \<Rightarrow> Returns (arg_genes a))"

definition main ::
    "reader \<Rightarrow> mygene \<Rightarrow> 'v gprofiler \<Rightarrow> args \<Rightarrow> 'v world \<Rightarrow> unit outcome \<times> 'v world" where
  "main leer mg gp a w =
     (case genes_input leer a of
        SysExit code \<Rightarrow> (SysExit code, w)
      | Raises e \<Rightarrow> (Raises e, w)
      | Returns None \<Rightarrow> (Raises TypeError, w)
      | Returns (Some gs) \<Rightarrow>
          (case validar_y_convertir_genes mg gs (arg_organism a) w of
             (SysExit code, w1) \<Rightarrow> (SysExit code, w1)
           | (Raises e, w1) \<Rightarrow> (Raises e, w1)
           | (Returns validacion, w1) \<Rightarrow>
               (case analizar_genes gp (validos validacion) (arg_organism a) w1 of
                  (resultados, w2) \<Rightarrow> exportar_resultados resultados validacion (arg_output a) w2)))"

section \<open>The outcome of the two lookups, read off the records\<close>

text \<open>
  The conditions of the two loops and the lists they build, written as filters over the
  paired terms and records: a record of the direct lookup is accepted unless its
  \<^verbatim>\<open>notfound\<close> is true or it has no symbol; a record of the retry is accepted when it has a
  symbol and no \<^verbatim>\<open>notfound\<close> key at all.
\<close>

definition found_direct :: "hit \<Rightarrow> bool" where
  "found_direct h \<longleftrightarrow> notfound h \<noteq> Some True \<and> symbol h \<noteq> None"

definition found_mt :: "hit \<Rightarrow> bool" where
  "found_mt h \<longleftrightarrow> notfound h = None \<and> symbol h \<noteq> None"

definition directos :: "string list \<Rightarrow> hit list \<Rightarrow> (string \<times> string) list" where
  "directos gs out =
     map (\<lambda>z. (fst z, the (symbol (snd z)))) (filter (\<lambda>z. found_direct (snd z)) (zip gs out))"

definition reintentos :: "string list \<Rightarrow> hit list \<Rightarrow> string list" where
  "reintentos gs out = map fst (filter (\<lambda>z. \<not> found_direct (snd z)) (zip gs out))"

definition por_mt :: "string list \<Rightarrow> hit list \<Rightarrow> (string \<times> string) list" where
  "por_mt rs out_mt =
     map (\<lambda>z. (fst z, the (symbol (snd z)))) (filter (\<lambda>z. found_mt (snd z)) (zip rs out_mt))"

definition perdidos :: "string list \<Rightarrow> hit list \<Rightarrow> string list" where
  "perdidos rs out_mt = map fst (filter (\<lambda>z. \<not> found_mt (snd z)) (zip rs out_mt))"

definition resueltos_mt :: "string list \<Rightarrow> string + hit list \<Rightarrow> (string \<times> string) list" where
  "resueltos_mt rs mt = (case mt of Inr out_mt \<Rightarrow> por_mt rs out_mt | Inl e \<Rightarrow> [])"

definition no_resueltos :: "string list \<Rightarrow> string + hit list \<Rightarrow> string list" where
  "no_resueltos rs mt = (case mt of Inr out_mt \<Rightarrow> perdidos rs out_mt | Inl e \<Rightarrow> rs)"

definition anotar :: "(string \<times> string) list \<Rightarrow> (string \<times> string) list \<Rightarrow> (string \<times> string) list" where
  "anotar ps al = fold (\<lambda>p. AList.update (fst p) (snd p)) ps al"

section \<open>The files of a run, read off the table\<close>

text \<open>The file of one source database: written when the table has a row of that source.\<close>

definition archivo_fuente :: "'v dataframe \<Rightarrow> string \<Rightarrow> string \<times> string \<Rightarrow> (string \<times> 'v artifact) list" where
  "archivo_fuente df output_dir b =
     (if df_empty (df_source df (fst b)) then []
      else [(path_join output_dir (snd b), CSV (df_source df (fst b)))])"

text \<open>The table that \<^verbatim>\<open>analizar_genes\<close> hands on, from the answer of g:Profiler.\<close>

definition tabla_de :: "string + 'v dataframe option \<Rightarrow> 'v dataframe" where
  "tabla_de answer =
     (case answer of
        Inr (Some df) \<Rightarrow> if df_empty df then pd_DataFrame else df
      | Inr None \<Rightarrow> pd_DataFrame
      | Inl e \<Rightarrow> pd_DataFrame)"

section \<open>The command line\<close>

text \<open>
  \<^verbatim>\<open>main\<close> builds an \<^verbatim>\<open>argparse.ArgumentParser\<close> and calls \<^verbatim>\<open>parse_args()\<close>. The parser is
  modelled by what the script declares: the optional arguments with their option strings,
  destination, \<^verbatim>\<open>nargs\<close> and default, and the mutually exclusive groups with their
  \<^verbatim>\<open>required\<close> flag. The behaviour of \<^verbatim>\<open>parse_args\<close> is that of the standard library on the
  command lines whose tokens are declared option strings, the help flags, or values that do
  not start with a dash; an abbreviated option, \<^verbatim>\<open>--opt=value\<close>, \<^verbatim>\<open>--\<close> and the like are outside
  the model.
\<close>

datatype argval = Str string | Strs "string list"

datatype nargs = Single | OneOrMore

record argument =
  option_strings :: "string list"
  dest :: string
  nargs :: nargs
  default_value :: "argval option"

record parser =
  arguments :: "argument list"
  exclusive_groups :: "(string list \<times> bool) list"

text \<open>The parser of \<^verbatim>\<open>main\<close>: \<^verbatim>\<open>add_mutually_exclusive_group(required=True)\<close> with \<^verbatim>\<open>-i\<close> and
  \<^verbatim>\<open>-g\<close>, then \<^verbatim>\<open>-o\<close> and \<^verbatim>\<open>-org\<close> with their defaults.\<close>

definition parser_main :: parser where
  "parser_main =
     \<lparr>arguments =
        [\<lparr>option_strings = [''-i'', ''--input''], dest = ''input'', nargs = Single,
          default_value = None\<rparr>,
         \<lparr>option_strings = [''-g'', ''--genes''], dest = ''genes'', nargs = OneOrMore,
          default_value = None\<rparr>,
         \<lparr>option_strings = [''-o'', ''--output''], dest = ''output'', nargs = Single,
          default_value = Some (Str ''results'')\<rparr>,
         \<lparr>option_strings = [''-org'', ''--organism''], dest = ''organism'', nargs = Single,
          default_value = Some (Str ''hsapiens'')\<rparr>],
      exclusive_groups = [([''input'', ''genes''], True)]\<rparr>"

text \<open>The outcome of \<^verbatim>\<open>parse_args\<close>: a namespace, an exit of the process (status 0 after the
  help, 2 after an error), or a command line outside the model.\<close>

datatype 'a parsed = Parsed 'a | ParserExit int | Unmodelled

record pstate =
  namespace :: "(string \<times> argval option) list"
  seen :: "string list"
  extras :: "string list"

definition is_value :: "string \<Rightarrow> bool" where
  "is_value t \<longleftrightarrow> t = [] \<or> hd t \<noteq> CHR ''-''"

definition is_help :: "string \<Rightarrow> bool" where
  "is_help t \<longleftrightarrow> t = ''-h'' \<or> t = ''--help''"

definition find_argument :: "parser \<Rightarrow> string \<Rightarrow> argument option" where
  "find_argument p t = find (\<lambda>a. t \<in> set (option_strings a)) (arguments p)"

text \<open>An argument conflicts when another destination of one of its groups was already seen.\<close>

definition conflicts :: "parser \<Rightarrow> argument \<Rightarrow> string list \<Rightarrow> bool" where
  "conflicts p a sn \<longleftrightarrow>
     list_ex (\<lambda>g. dest a \<in> set (fst g) \<and> list_ex (\<lambda>d. d \<noteq> dest a \<and> d \<in> set sn) (fst g))
       (exclusive_groups p)"

definition store :: "argument \<Rightarrow> argval \<Rightarrow> pstate \<Rightarrow> pstate" where
  "store a v st =
     st\<lparr>namespace := AList.update (dest a) (Some v) (namespace st), seen := seen st @ [dest a]\<rparr>"

text \<open>The tokens are consumed from left to right. An option takes the values that follow it:
  exactly one, or as many as there are up to the next option and at least one. A value that
  no option takes is kept aside.\<close>

function consume :: "parser \<Rightarrow> string list \<Rightarrow> pstate \<Rightarrow> pstate parsed" where
  "consume p [] st = Parsed st"
| "consume p (t # ts) st =
     (if is_help t then ParserExit 0
      else case find_argument p t of
             None \<Rightarrow>
               if is_value t then consume p ts (st\<lparr>extras := extras st @ [t]\<rparr>) else Unmodelled
           | Some a \<Rightarrow>
               (case nargs a of
                  Single \<Rightarrow>
                    (case ts of
                       [] \<Rightarrow> ParserExit 2
                     | v # ts' \<Rightarrow>
                         if \<not> is_value v then ParserExit 2
                         else if conflicts p a (seen st) then ParserExit 2
                         else consume p ts' (store a (Str v) st))
                | OneOrMore \<Rightarrow>
                    if takeWhile is_value ts = [] then ParserExit 2
                    else if conflicts p a (seen st) then ParserExit 2
                    else consume p (dropWhile is_value ts) (store a (Strs (takeWhile is_value ts)) st)))"
  by pat_completeness auto
termination
  by (relation "measure (\<lambda>(p, ts, st). length ts)")
    (auto simp: length_dropWhile_le less_Suc_eq_le)

text \<open>At the end a required group of which nothing was seen, or a value kept aside, is an
  error.\<close>

definition finish :: "parser \<Rightarrow> pstate \<Rightarrow> (string \<times> argval option) list parsed" where
  "finish p st =
     (if list_ex (\<lambda>g. snd g \<and> list_all (\<lambda>d. d \<notin> set (seen st)) (fst g)) (exclusive_groups p)
      then ParserExit 2
      else if extras st \<noteq> [] then ParserExit 2
      else Parsed (namespace st))"

definition known_token :: "parser \<Rightarrow> string \<Rightarrow> bool" where
  "known_token p t \<longleftrightarrow> is_help t \<or> find_argument p t \<noteq> None \<or> is_value t"

definition parse_args :: "parser \<Rightarrow> string list \<Rightarrow> (string \<times> argval option) list parsed" where
  "parse_args p argv =
     (if \<not> list_all (known_token p) argv then Unmodelled
      else case consume p argv
                  \<lparr>namespace = map (\<lambda>a. (dest a, default_value a)) (arguments p),
                   seen = [], extras = []\<rparr> of
             Parsed st \<Rightarrow> finish p st
           | ParserExit code \<Rightarrow> ParserExit code
           | Unmodelled \<Rightarrow> Unmodelled)"



section \<open>Example inputs\<close>

definition ejemplo_contenido :: string where
  "ejemplo_contenido = ''COX4I2, ND1'' @ [newline] @ '' ATP6 '' @ [newline]"

definition ejemplo_leer :: reader where
  "ejemplo_leer archivo = (if archivo = ''genes.txt'' then Inr ejemplo_contenido else Inl FileNotFoundError)"

definition w0 :: "nat world" where
  "w0 = \<lparr>mg_queries = [], gp_queries = [], made_dirs = [], written = []\<rparr>"

definition hallado :: "string \<Rightarrow> hit" where
  "hallado s = \<lparr>notfound = None, symbol = Some s\<rparr>"

definition no_hallado :: hit where
  "no_hallado = \<lparr>notfound = Some True, symbol = None\<rparr>"

text \<open>A service that knows \<^verbatim>\<open>COX4I2\<close> and \<^verbatim>\<open>MT-ND1\<close> and nothing else, one record per term.\<close>

definition mg_ejemplo :: mygene where
  "mg_ejemplo ts sp =
     Inr (map (\<lambda>t. if t = ''COX4I2'' \<or> t = ''MT-ND1'' then hallado t else no_hallado) ts)"

text \<open>A service that finds nothing.\<close>

definition mg_nada :: mygene where
  "mg_nada ts sp = Inr (map (\<lambda>t. no_hallado) ts)"

text \<open>A service whose answer to the two terms \<^verbatim>\<open>A\<close>, \<^verbatim>\<open>B\<close> holds one record only.\<close>

definition mg_corto :: mygene where
  "mg_corto ts sp = Inr [hallado ''X'']"

text \<open>A service that finds the first of two terms and not the second, nor any retry.\<close>

definition mg_primero :: mygene where
  "mg_primero ts sp = (if length ts = 2 then Inr [hallado ''X'', no_hallado] else Inr [no_hallado])"


text \<open>A service that cannot be reached, and command lines that name the genes.\<close>

definition mg_caido :: mygene where
  "mg_caido ts sp = Inl ''connection refused''"

definition args_genes :: "string list \<Rightarrow> args" where
  "args_genes gs =
     \<lparr>arg_input = None, arg_genes = Some gs, arg_output = ''results'', arg_organism = ''hsapiens''\<rparr>"

definition leer_nada :: reader where
  "leer_nada archivo = Inl FileNotFoundError"

text \<open>An enrichment service with no significant term, one that fails, and one with a single
  KEGG term.\<close>

definition gp_vacio :: "nat gprofiler" where
  "gp_vacio org q srcs = Inr (Some \<lparr>columns = [''source'', ''native'', ''name'', ''p_value''], rows = []\<rparr>)"


definition df_kegg :: "nat dataframe" where
  "df_kegg =
     \<lparr>columns = [''source'', ''native'', ''name'', ''p_value''],
      rows = [[(''source'', Text ''KEGG''), (''native'', Text ''KEGG:00190''),
               (''name'', Text ''Oxidative phosphorylation''), (''p_value'', Other 1)]]\<rparr>"

definition gp_kegg :: "nat gprofiler" where
  "gp_kegg org q srcs = Inr (Some df_kegg)"

definition validacion_ejemplo :: validacion where
  "validacion_ejemplo =
     \<lparr>validos = [''COX4I2'', ''MT-ND1''],
      mapping = [(''COX4I2'', ''COX4I2''), (''ND1'', ''MT-ND1'')],
      no_encontrados = [''FOO''],
      advertencias = [aviso_no_encontrado ''FOO'']\<rparr>"

section \<open>Properties of the string operations\<close>

lemma rstrip_Nil: "rstrip [] = []"
  by (simp add: rstrip_def)

lemma rstrip_snoc: "rstrip (s @ [c]) = (if is_space c then rstrip s else s @ [c])"
  by (simp add: rstrip_def)

lemma rstrip_hd:
  "s \<noteq> [] \<Longrightarrow> \<not> is_space (hd s) \<Longrightarrow> rstrip s \<noteq> [] \<and> hd (rstrip s) = hd s"
  by (induction s rule: rev_induct) (auto simp: rstrip_snoc hd_append)

lemma rstrip_last: "rstrip s \<noteq> [] \<Longrightarrow> \<not> is_space (last (rstrip s))"
  by (induction s rule: rev_induct) (auto simp: rstrip_snoc rstrip_Nil)

lemma rstrip_fixed: "s \<noteq> [] \<Longrightarrow> \<not> is_space (last s) \<Longrightarrow> rstrip s = s"
  by (cases s rule: rev_cases) (auto simp: rstrip_snoc)

lemma set_rstrip: "set (rstrip s) \<subseteq> set s"
  by (induction s rule: rev_induct) (auto simp: rstrip_snoc rstrip_Nil)

lemma set_strip: "set (strip s) \<subseteq> set s"
proof -
  have "set (strip s) \<subseteq> set (lstrip s)"
    unfolding strip_def by (rule set_rstrip)
  also have "\<dots> \<subseteq> set s"
    unfolding lstrip_def by (rule set_dropWhileD[THEN subsetI]) 
  finally show ?thesis .
qed

lemma strip_hd: 
  assumes ne: "strip s \<noteq> []"
  shows "\<not> is_space (hd (strip s))"
proof -
  have d: "lstrip s \<noteq> []"
  proof
    assume "lstrip s = []"
    then have "strip s = []"
      by (simp only: strip_def rstrip_Nil)
    with ne show False by simp
  qed
  then have "\<not> is_space (hd (lstrip s))"
    unfolding lstrip_def by (rule hd_dropWhile)
  with d show ?thesis
    by (simp add: strip_def rstrip_hd)
qed

lemma strip_last: "strip s \<noteq> [] \<Longrightarrow> \<not> is_space (last (strip s))"
  by (simp add: strip_def rstrip_last)

lemma strip_fixed:
  assumes "s \<noteq> []" "\<not> is_space (hd s)" "\<not> is_space (last s)"
  shows "strip s = s"
proof -
  from assms have "lstrip s = s"
    by (cases s) (auto simp: lstrip_def)
  with assms show ?thesis
    by (simp add: strip_def rstrip_fixed)
qed

lemma strip_idem: "strip (strip s) = strip s"
proof (cases "strip s = []")
  case True
  have "strip [] = []"
    by (simp add: strip_def lstrip_def rstrip_def)
  with True show ?thesis by simp
next
  case False
  then show ?thesis
    by (intro strip_fixed strip_hd strip_last)
qed

lemma split_replace_pieces:
  "split comma (replace newline comma s) = pieces (\<lambda>c. c = comma \<or> c = newline) s"
  by (induction s) (simp_all add: replace_def)

lemma split_pieces: "split sep s = pieces (\<lambda>c. c = sep) s"
  by (induction s) simp_all

lemma pieces_nonempty: "pieces is_sep s \<noteq> []"
  by (induction s) (auto split: list.splits)

lemma pieces_no_sep:
  "p \<in> set (pieces is_sep s) \<Longrightarrow> c \<in> set p \<Longrightarrow> \<not> is_sep c \<and> c \<in> set s"
proof (induction s arbitrary: p)
  case Nil
  then show ?case by simp
next
  case (Cons a s)
  show ?case
  proof (cases "is_sep a")
    case True
    with Cons show ?thesis by auto
  next
    case False
    from pieces_nonempty[of is_sep s] obtain q qs where q: "pieces is_sep s = q # qs"
      by (cases "pieces is_sep s") auto
    with False Cons.prems have "p = a # q \<or> p \<in> set qs"
      by simp
    then show ?thesis
    proof
      assume "p = a # q"
      with Cons.prems(2) have "c = a \<or> c \<in> set q" by simp
      with False Cons.IH[of q] q show ?thesis by auto
    next
      assume "p \<in> set qs"
      with Cons.IH[of p] q Cons.prems(2) show ?thesis by simp
    qed
  qed
qed

lemma leer_genes_readable:
  assumes "leer archivo = Inr contenido"
  shows "leer_genes leer archivo =
       Returns (tokens (if comma \<in> set contenido then (\<lambda>c. c = comma \<or> c = newline)
                        else (\<lambda>c. c = newline)) contenido)"
proof (cases "comma \<in> set contenido")
  case True
  with assms show ?thesis
    by (simp add: leer_genes_def tokens_def split_replace_pieces)
next
  case False
  with assms show ?thesis
    by (simp add: leer_genes_def tokens_def split_pieces)
qed

lemma tokens_clean:
  assumes "g \<in> set (tokens is_sep s)"
  shows "g \<noteq> [] \<and> strip g = g \<and> \<not> is_space (hd g) \<and> \<not> is_space (last g)
         \<and> (\<forall>c \<in> set g. \<not> is_sep c \<and> c \<in> set s)"
proof -
  from assms obtain t where t: "t \<in> set (pieces is_sep s)" "g = strip t" "strip t \<noteq> []"
    by (auto simp: tokens_def)
  have "\<not> is_sep c \<and> c \<in> set s" if "c \<in> set g" for c
  proof -
    from that t(2) set_strip[of t] have "c \<in> set t" by auto
    with t(1) show ?thesis by (rule pieces_no_sep)
  qed
  with t show ?thesis
    by (simp add: strip_idem strip_hd strip_last)
qed

text \<open>
  Claim C9. For a file that can be read, \<^verbatim>\<open>leer_genes\<close> returns the stripped, non-empty
  pieces of the text: cut at commas and newlines when the text has a comma, at newlines
  otherwise. Every returned string is non-empty, has no whitespace at either end and holds
  neither separator.
\<close>

theorem leer_genes_tokens:
  assumes "leer archivo = Inr contenido"
  shows "\<exists>gs. leer_genes leer archivo = Returns gs
          \<and> gs = tokens (if comma \<in> set contenido then (\<lambda>c. c = comma \<or> c = newline)
                         else (\<lambda>c. c = newline)) contenido
          \<and> (\<forall>g \<in> set gs. g \<noteq> [] \<and> strip g = g \<and> \<not> is_space (hd g) \<and> \<not> is_space (last g)
                \<and> comma \<notin> set g \<and> newline \<notin> set g)"
proof -
  let ?sep = "if comma \<in> set contenido then (\<lambda>c. c = comma \<or> c = newline) else (\<lambda>c. c = newline)"
  have r: "leer_genes leer archivo = Returns (tokens ?sep contenido)"
    using assms by (rule leer_genes_readable)
  have "g \<noteq> [] \<and> strip g = g \<and> \<not> is_space (hd g) \<and> \<not> is_space (last g)
          \<and> comma \<notin> set g \<and> newline \<notin> set g"
    if g: "g \<in> set (tokens ?sep contenido)" for g
  proof -
    note c = tokens_clean[OF g]
    have "comma \<notin> set g"
    proof
      assume "comma \<in> set g"
      with c have "\<not> ?sep comma" "comma \<in> set contenido" by blast+
      then show False by simp
    qed
    moreover have "newline \<notin> set g"
    proof
      assume "newline \<in> set g"
      with c have "\<not> ?sep newline" by blast
      then show False by (simp split: if_splits)
    qed
    ultimately show ?thesis using c by blast
  qed
  with r show ?thesis by blast
qed

theorem leer_genes_tokens_witness:
  "ejemplo_leer ''genes.txt'' = Inr ejemplo_contenido
   \<and> leer_genes ejemplo_leer ''genes.txt'' = Returns [''COX4I2'', ''ND1'', ''ATP6'']"
proof -
  have h: "ejemplo_leer ''genes.txt'' = Inr ejemplo_contenido"
    by (simp add: ejemplo_leer_def)
  have t: "tokens (\<lambda>c. c = comma \<or> c = newline) ejemplo_contenido = [''COX4I2'', ''ND1'', ''ATP6'']"
    by (simp add: tokens_def ejemplo_contenido_def comma_def newline_def strip_def lstrip_def
        rstrip_def is_space_def)
  have c: "comma \<in> set ejemplo_contenido"
    by (simp add: ejemplo_contenido_def comma_def)
  from leer_genes_tokens[of ejemplo_leer "''genes.txt''" ejemplo_contenido] c t h show ?thesis
    by auto
qed

section \<open>The two loops of the validation in closed form\<close>

lemma paso_directo_alt:
  "paso_directo (g, h) l =
     (if found_direct h
      then l\<lparr>validos := validos l @ [the (symbol h)],
             mapping := AList.update g (the (symbol h)) (mapping l)\<rparr>
      else l\<lparr>genes_a_reintentar := genes_a_reintentar l @ [g]\<rparr>)"
  by (auto simp: found_direct_def split: option.splits)

lemma paso_mt_alt:
  "paso_mt (g, v, h) l =
     (if found_mt h
      then l\<lparr>validos := validos l @ [the (symbol h)],
             mapping := AList.update g (the (symbol h)) (mapping l)\<rparr>
      else paso_fallo g l)"
  by (auto simp: found_mt_def paso_fallo_def split: option.splits)

lemma fold_paso_directo:
  "fold paso_directo (zip gs out) l =
     l\<lparr>validos := validos l @ map snd (directos gs out),
       mapping := anotar (directos gs out) (mapping l),
       genes_a_reintentar := genes_a_reintentar l @ reintentos gs out\<rparr>"
proof (induction gs arbitrary: out l)
  case Nil
  then show ?case by (simp add: directos_def reintentos_def anotar_def)
next
  case (Cons g gs)
  show ?case
  proof (cases out)
    case Nil
    then show ?thesis by (simp add: directos_def reintentos_def anotar_def)
  next
    case (Cons h hs)
    then show ?thesis
      using Cons.IH[of hs]
      by (simp add: paso_directo_alt directos_def reintentos_def anotar_def del: paso_directo.simps)
  qed
qed

lemma fold_paso_mt:
  "fold paso_mt (zip rs (zip vs out_mt)) l =
     l\<lparr>validos := validos l @ map snd (por_mt rs (take (length vs) out_mt)),
       mapping := anotar (por_mt rs (take (length vs) out_mt)) (mapping l),
       no_encontrados := no_encontrados l @ perdidos rs (take (length vs) out_mt),
       advertencias := advertencias l @ map aviso_no_encontrado (perdidos rs (take (length vs) out_mt))\<rparr>"
proof (induction rs arbitrary: vs out_mt l)
  case Nil
  then show ?case by (simp add: por_mt_def perdidos_def anotar_def)
next
  case (Cons g gs)
  show ?case
  proof (cases vs)
    case Nil
    then show ?thesis by (simp add: por_mt_def perdidos_def anotar_def)
  next
    case vs: (Cons v vs')
    show ?thesis
    proof (cases out_mt)
      case Nil
      with vs show ?thesis by (simp add: por_mt_def perdidos_def anotar_def)
    next
      case (Cons h hs)
      with vs show ?thesis
        using Cons.IH[of vs' hs]
        by (simp add: paso_mt_alt paso_fallo_def por_mt_def perdidos_def anotar_def del: paso_mt.simps)
    qed
  qed
qed

lemma fold_paso_fallo:
  "fold paso_fallo rs l =
     l\<lparr>no_encontrados := no_encontrados l @ rs,
       advertencias := advertencias l @ map aviso_no_encontrado rs\<rparr>"
  by (induction rs arbitrary: l) (simp_all add: paso_fallo_def)


lemma zip_take_length: "zip xs (take (length xs) ys) = zip xs ys"
proof (induction xs arbitrary: ys)
  case Nil
  then show ?case by simp
next
  case (Cons x xs)
  then show ?case by (cases ys) simp_all
qed

lemma por_mt_take: "por_mt rs (take (length rs) out_mt) = por_mt rs out_mt"
  by (simp add: por_mt_def zip_take_length)

lemma perdidos_take: "perdidos rs (take (length rs) out_mt) = perdidos rs out_mt"
  by (simp add: perdidos_def zip_take_length)

lemma anotar_append: "anotar (ps @ qs) al = anotar qs (anotar ps al)"
  by (simp add: anotar_def)

lemma por_mt_Nil: "por_mt [] out_mt = []" and perdidos_Nil: "perdidos [] out_mt = []"
  by (simp_all add: por_mt_def perdidos_def)

lemma len_variantes: "length (variantes_mt rs) = length rs"
  by (simp add: variantes_mt_def)

lemma validar_completed:
  assumes "mg gs (species_of org) = Inr out"
      and "mg (variantes_mt (reintentos gs out)) (species_of org) = mt"
  shows "validar_y_convertir_genes mg gs org w =
     (if directos gs out @ resueltos_mt (reintentos gs out) mt = [] then SysExit 1
      else Returns
             \<lparr>validos = map snd (directos gs out @ resueltos_mt (reintentos gs out) mt),
              mapping = anotar (directos gs out @ resueltos_mt (reintentos gs out) mt) [],
              no_encontrados = no_resueltos (reintentos gs out) mt,
              advertencias = map aviso_no_encontrado (no_resueltos (reintentos gs out) mt)\<rparr>,
      w\<lparr>mg_queries := mg_queries w @ (gs, species_of org)
            # (if reintentos gs out = [] then []
               else [(variantes_mt (reintentos gs out), species_of org)])\<rparr>)"
proof (cases "reintentos gs out = []")
  case True
  with assms(1) show ?thesis
    by (simp add: validar_y_convertir_genes_def Let_def fold_paso_directo locals_init_def
        resueltos_mt_def no_resueltos_def por_mt_Nil perdidos_Nil anotar_def split: sum.splits)
next
  case False
  show ?thesis
  proof (cases mt)
    case (Inl e)
    with assms False show ?thesis
      by (simp add: validar_y_convertir_genes_def Let_def fold_paso_directo fold_paso_fallo
          locals_init_def resueltos_mt_def no_resueltos_def)
  next
    case (Inr out_mt)
    with assms False show ?thesis
      by (simp add: validar_y_convertir_genes_def Let_def fold_paso_directo fold_paso_mt
          locals_init_def resueltos_mt_def no_resueltos_def len_variantes por_mt_take
          perdidos_take anotar_append)
  qed
qed

lemma validar_unreachable:
  assumes "mg gs (species_of org) = Inl e"
  shows "validar_y_convertir_genes mg gs org w =
     (Returns \<lparr>validos = gs, mapping = fold (\<lambda>g. AList.update g g) gs [],
               no_encontrados = [], advertencias = [aviso_sin_conexion]\<rparr>,
      w\<lparr>mg_queries := mg_queries w @ [(gs, species_of org)]\<rparr>)"
  using assms by (simp add: validar_y_convertir_genes_def Let_def)

section \<open>The dictionary of conversions\<close>

lemma map_of_anotar: "map_of (anotar ps al) = map_of al ++ map_of (rev ps)"
proof (induction ps arbitrary: al)
  case Nil
  then show ?case by (simp add: anotar_def)
next
  case (Cons p ps)
  have "map_of (anotar (p # ps) al) = map_of (anotar ps (AList.update (fst p) (snd p) al))"
    by (simp add: anotar_def)
  also have "\<dots> = (map_of al)(fst p \<mapsto> snd p) ++ map_of (rev ps)"
    by (simp only: Cons.IH update_conv')
  also have "\<dots> = map_of al ++ map_of (rev (p # ps))"
    by (cases p) simp
  finally show ?case .
qed

lemma keys_anotar: "fst ` set (anotar ps al) = fst ` set al \<union> fst ` set ps"
proof -
  have "dom (map_of (anotar ps al)) = dom (map_of al) \<union> dom (map_of (rev ps))"
    by (simp add: map_of_anotar Un_commute)
  then show ?thesis
    by (simp add: dom_map_of_conv_image_fst)
qed

lemma distinct_anotar: "distinct (map fst al) \<Longrightarrow> distinct (map fst (anotar ps al))"
  by (induction ps arbitrary: al) (simp_all add: anotar_def distinct_update)

lemma set_anotar: 
  assumes "p \<in> set (anotar ps [])"
  shows "p \<in> set ps"
proof -
  obtain g s where p: "p = (g, s)" by (cases p)
  have "distinct (map fst (anotar ps []))"
    by (rule distinct_anotar) simp
  with assms p have "map_of (anotar ps []) g = Some s"
    by simp
  then have "map_of (rev ps) g = Some s"
    by (simp add: map_of_anotar)
  then have "(g, s) \<in> set (rev ps)"
    by (rule map_of_SomeD)
  with p show ?thesis by simp
qed


section \<open>Which identifiers end in which list\<close>

lemma split_keys:
  "fst ` set (filter (\<lambda>z. P (snd z)) zs) \<union> fst ` set (filter (\<lambda>z. \<not> P (snd z)) zs) = fst ` set zs"
  by auto

lemma split_keys_disjoint:
  assumes "distinct (map fst zs)"
  shows "fst ` set (filter (\<lambda>z. P (snd z)) zs) \<inter> fst ` set (filter (\<lambda>z. \<not> P (snd z)) zs) = {}"
proof -
  from assms have "inj_on fst (set zs)"
    by (simp add: distinct_map)
  then show ?thesis
    by (auto simp: inj_on_def)
qed

lemma keys_directos:
  "map fst (directos gs out) = map fst (filter (\<lambda>z. found_direct (snd z)) (zip gs out))"
  by (simp add: directos_def comp_def)

lemma keys_por_mt:
  "map fst (por_mt rs out_mt) = map fst (filter (\<lambda>z. found_mt (snd z)) (zip rs out_mt))"
  by (simp add: por_mt_def comp_def)

lemma map_fst_zip_take: "map fst (zip xs ys) = take (length ys) xs"
  by (induction xs arbitrary: ys) (simp, case_tac ys, simp_all)

lemma first_pass_cover:
  "fst ` set (directos gs out) \<union> set (reintentos gs out) = set (take (length out) gs)"
proof -
  have "fst ` set (directos gs out) = set (map fst (directos gs out))"
    by simp
  then have "fst ` set (directos gs out) \<union> set (reintentos gs out) = fst ` set (zip gs out)"
    unfolding keys_directos reintentos_def by (simp only: set_map split_keys)
  also have "\<dots> = set (map fst (zip gs out))"
    by simp
  finally show ?thesis
    by (simp only: map_fst_zip_take)
qed

lemma retry_cover:
  "fst ` set (por_mt rs out_mt) \<union> set (perdidos rs out_mt) = set (take (length out_mt) rs)"
proof -
  have "fst ` set (por_mt rs out_mt) = set (map fst (por_mt rs out_mt))"
    by simp
  then have "fst ` set (por_mt rs out_mt) \<union> set (perdidos rs out_mt) = fst ` set (zip rs out_mt)"
    unfolding keys_por_mt perdidos_def by (simp only: set_map split_keys)
  also have "\<dots> = set (map fst (zip rs out_mt))"
    by simp
  finally show ?thesis
    by (simp only: map_fst_zip_take)
qed

lemma distinct_fst_zip: "distinct xs \<Longrightarrow> distinct (map fst (zip xs ys))"
  by (simp add: map_fst_zip_take)

lemma first_pass_disjoint:
  assumes "distinct gs"
  shows "fst ` set (directos gs out) \<inter> set (reintentos gs out) = {}"
proof -
  have "fst ` set (directos gs out) = set (map fst (directos gs out))"
    by simp
  then show ?thesis
    unfolding keys_directos reintentos_def
    using split_keys_disjoint[OF distinct_fst_zip[OF assms], of found_direct out]
    by (simp only: set_map)
qed

lemma retry_disjoint:
  assumes "distinct rs"
  shows "fst ` set (por_mt rs out_mt) \<inter> set (perdidos rs out_mt) = {}"
proof -
  have "fst ` set (por_mt rs out_mt) = set (map fst (por_mt rs out_mt))"
    by simp
  then show ?thesis
    unfolding keys_por_mt perdidos_def
    using split_keys_disjoint[OF distinct_fst_zip[OF assms], of found_mt out_mt]
    by (simp only: set_map)
qed

lemma distinct_reintentos: "distinct gs \<Longrightarrow> distinct (reintentos gs out)"
  unfolding reintentos_def by (intro distinct_map_filter distinct_fst_zip)



lemma reintentos_subset: "set (reintentos gs out) \<subseteq> set gs"
  using first_pass_cover[of gs out] set_take_subset[of "length out" gs] by blast

lemma perdidos_subset: "set (perdidos rs out_mt) \<subseteq> set rs"
  using retry_cover[of rs out_mt] set_take_subset[of "length out_mt" rs] by blast


lemma directos_none: "directos gs out = [] \<longleftrightarrow> (\<forall>h \<in> set (take (length gs) out). \<not> found_direct h)"
proof -
  have "directos gs out = [] \<longleftrightarrow> (\<forall>z \<in> set (zip gs out). \<not> found_direct (snd z))"
    by (simp add: directos_def filter_empty_conv)
  also have "\<dots> \<longleftrightarrow> (\<forall>h \<in> snd ` set (zip gs out). \<not> found_direct h)"
    by blast
  also have "snd ` set (zip gs out) = set (map snd (zip gs out))"
    by simp
  also have "map snd (zip gs out) = take (length gs) out"
    by (induction gs arbitrary: out) (simp, case_tac out, simp_all)
  finally show ?thesis .
qed

lemma por_mt_none: "por_mt rs out_mt = [] \<longleftrightarrow> (\<forall>h \<in> set (take (length rs) out_mt). \<not> found_mt h)"
proof -
  have "por_mt rs out_mt = [] \<longleftrightarrow> (\<forall>z \<in> set (zip rs out_mt). \<not> found_mt (snd z))"
    by (simp add: por_mt_def filter_empty_conv)
  also have "\<dots> \<longleftrightarrow> (\<forall>h \<in> snd ` set (zip rs out_mt). \<not> found_mt h)"
    by blast
  also have "snd ` set (zip rs out_mt) = set (map snd (zip rs out_mt))"
    by simp
  also have "map snd (zip rs out_mt) = take (length rs) out_mt"
    by (induction rs arbitrary: out_mt) (simp, case_tac out_mt, simp_all)
  finally show ?thesis .
qed

section \<open>The partition of the identifiers\<close>

lemma validar_returns_partition:
  assumes first: "length gs \<le> length out"
      and retry: "reintentos gs out \<noteq> [] \<Longrightarrow> length (reintentos gs out) \<le> length out_mt"
  shows "set gs = fst ` set (anotar (directos gs out @ por_mt (reintentos gs out) out_mt) [])
                  \<union> set (perdidos (reintentos gs out) out_mt)"
proof -
  let ?rs = "reintentos gs out"
  have "length ?rs \<le> length out_mt"
    using retry by (cases "?rs = []") simp_all
  then have "fst ` set (por_mt ?rs out_mt) \<union> set (perdidos ?rs out_mt) = set ?rs"
    by (simp add: retry_cover)
  moreover from first have "fst ` set (directos gs out) \<union> set ?rs = set gs"
    by (simp add: first_pass_cover)
  ultimately show ?thesis
    by (simp add: keys_anotar image_Un) blast
qed

lemma validar_partition_disjoint:
  assumes "distinct gs"
  shows "fst ` set (anotar (directos gs out @ por_mt (reintentos gs out) out_mt) [])
           \<inter> set (perdidos (reintentos gs out) out_mt) = {}"
proof -
  let ?rs = "reintentos gs out"
  from assms have "distinct ?rs"
    by (rule distinct_reintentos)
  then have a: "fst ` set (por_mt ?rs out_mt) \<inter> set (perdidos ?rs out_mt) = {}"
    by (rule retry_disjoint)
  have b: "fst ` set (directos gs out) \<inter> set ?rs = {}"
    using assms by (rule first_pass_disjoint)
  have c: "set (perdidos ?rs out_mt) \<subseteq> set ?rs"
    by (rule perdidos_subset)
  from a b c show ?thesis
    by (simp add: keys_anotar image_Un) blast
qed

lemma anotar_values:
  assumes "p \<in> set (anotar ps [])"
  shows "snd p \<in> set (map snd ps)"
  using set_anotar[OF assms] by simp

text \<open>
  Claim C1, as amended. When both lookups complete with at least one record for each term
  queried, \<^verbatim>\<open>validar_y_convertir_genes\<close> either returns or leaves through \<^verbatim>\<open>sys.exit(1)\<close>.
  If it returns, every input identifier is a key of \<^verbatim>\<open>mapping\<close> or an element of
  \<^verbatim>\<open>no_encontrados\<close> and nothing else is; each key is mapped to a symbol that a lookup returned
  for it, and that symbol is in \<^verbatim>\<open>validos\<close>; and when the input identifiers are distinct no
  identifier is in both. It exits exactly when no record of either lookup is accepted.
\<close>

theorem validar_partition:
  assumes lookup: "mg gs (species_of org) = Inr out"
      and first: "length gs \<le> length out"
      and retry: "reintentos gs out \<noteq> [] \<Longrightarrow>
                    mg (variantes_mt (reintentos gs out)) (species_of org) = Inr out_mt
                    \<and> length (reintentos gs out) \<le> length out_mt"
  shows "case fst (validar_y_convertir_genes mg gs org w) of
           Returns r \<Rightarrow>
             set gs = fst ` set (mapping r) \<union> set (no_encontrados r)
             \<and> set (mapping r) \<subseteq> set (directos gs out) \<union> set (por_mt (reintentos gs out) out_mt)
             \<and> (\<forall>p \<in> set (mapping r). snd p \<in> set (validos r))
             \<and> (distinct gs \<longrightarrow> fst ` set (mapping r) \<inter> set (no_encontrados r) = {})
             \<and> ((\<exists>h \<in> set (take (length gs) out). found_direct h)
                  \<or> (\<exists>h \<in> set (take (length (reintentos gs out)) out_mt). found_mt h))
         | SysExit code \<Rightarrow>
             code = 1
             \<and> (\<forall>h \<in> set (take (length gs) out). \<not> found_direct h)
             \<and> (\<forall>h \<in> set (take (length (reintentos gs out)) out_mt). \<not> found_mt h)
         | Raises e \<Rightarrow> False"
proof -
  let ?rs = "reintentos gs out"
  define mt where "mt = mg (variantes_mt ?rs) (species_of org)"
  let ?F = "directos gs out @ por_mt ?rs out_mt"
  have F: "directos gs out @ resueltos_mt ?rs mt = ?F"
    and L: "no_resueltos ?rs mt = perdidos ?rs out_mt"
    using retry
    by (cases "?rs = []"; simp add: mt_def resueltos_mt_def no_resueltos_def por_mt_Nil perdidos_Nil
        split: sum.splits)+
  have v: "fst (validar_y_convertir_genes mg gs org w) =
      (if ?F = [] then SysExit 1
       else Returns \<lparr>validos = map snd ?F, mapping = anotar ?F [],
                     no_encontrados = perdidos ?rs out_mt,
                     advertencias = map aviso_no_encontrado (perdidos ?rs out_mt)\<rparr>)"
  proof -
    have m: "mg (variantes_mt ?rs) (species_of org) = mt"
      by (simp only: mt_def)
    note vc = validar_completed[where mg=mg and gs=gs and org=org and out=out and mt=mt and w=w,
        OF lookup m]
    show ?thesis
      by (simp only: vc fst_conv F L)
  qed
  show ?thesis
  proof (cases "?F = []")
    case True
    then have "directos gs out = []" "por_mt ?rs out_mt = []"
      by simp_all
    then show ?thesis
      using True by (simp add: v directos_none por_mt_none)
  next
    case False
    have len: "?rs \<noteq> [] \<Longrightarrow> length ?rs \<le> length out_mt"
      using retry by simp
    have 1: "set gs = fst ` set (anotar ?F []) \<union> set (perdidos ?rs out_mt)"
      using first len by (rule validar_returns_partition)
    have 2: "set (anotar ?F []) \<subseteq> set (directos gs out) \<union> set (por_mt ?rs out_mt)"
      using set_anotar[of _ ?F] by auto
    have 3: "\<forall>p \<in> set (anotar ?F []). snd p \<in> set (map snd ?F)"
      using anotar_values[of _ ?F] by blast
    have 4: "distinct gs \<longrightarrow> fst ` set (anotar ?F []) \<inter> set (perdidos ?rs out_mt) = {}"
      using validar_partition_disjoint[of gs out out_mt] by blast
    have 5: "(\<exists>h \<in> set (take (length gs) out). found_direct h)
                  \<or> (\<exists>h \<in> set (take (length ?rs) out_mt). found_mt h)"
    proof (rule ccontr)
      assume "\<not> ?thesis"
      then have "directos gs out = []" "por_mt ?rs out_mt = []"
        by (simp_all add: directos_none por_mt_none)
      with False show False by simp
    qed
    from False 1 2 3 4 5 show ?thesis
      by (simp only: v if_False outcome.case validacion.simps)
  qed
qed


theorem validar_partition_witness:
  "fst (validar_y_convertir_genes mg_ejemplo [''COX4I2'', ''ND1'', ''FOO''] ''hsapiens'' w0) =
     Returns \<lparr>validos = [''COX4I2'', ''MT-ND1''],
              mapping = [(''COX4I2'', ''COX4I2''), (''ND1'', ''MT-ND1'')],
              no_encontrados = [''FOO''],
              advertencias = [aviso_no_encontrado ''FOO'']\<rparr>
   \<and> set [''COX4I2'', ''ND1'', ''FOO''] = {''COX4I2'', ''ND1''} \<union> {''FOO''}
   \<and> {''COX4I2'', ''ND1''} \<inter> {''FOO''} = ({} :: string set)"
proof -
  let ?gs = "[''COX4I2'', ''ND1'', ''FOO'']"
  let ?out = "[hallado ''COX4I2'', no_hallado, no_hallado]"
  let ?out_mt = "[hallado ''MT-ND1'', no_hallado]"
  have sp: "species_of ''hsapiens'' = ''human''"
    by code_simp
  have rs: "reintentos ?gs ?out = [''ND1'', ''FOO'']"
    by (simp add: reintentos_def found_direct_def hallado_def no_hallado_def)
  have h1: "mg_ejemplo ?gs (species_of ''hsapiens'') = Inr ?out"
    by (simp add: mg_ejemplo_def)
  have h2: "length ?gs \<le> length ?out"
    by simp
  have h3: "mg_ejemplo (variantes_mt (reintentos ?gs ?out)) (species_of ''hsapiens'') = Inr ?out_mt
        \<and> length (reintentos ?gs ?out) \<le> length ?out_mt"
    by (simp add: rs mg_ejemplo_def variantes_mt_def)
  have v: "fst (validar_y_convertir_genes mg_ejemplo ?gs ''hsapiens'' w0) =
     Returns \<lparr>validos = [''COX4I2'', ''MT-ND1''],
              mapping = [(''COX4I2'', ''COX4I2''), (''ND1'', ''MT-ND1'')],
              no_encontrados = [''FOO''],
              advertencias = [aviso_no_encontrado ''FOO'']\<rparr>"
    by (simp add: validar_y_convertir_genes_def Let_def sp mg_ejemplo_def hallado_def
        no_hallado_def locals_init_def variantes_mt_def paso_fallo_def)
  from validar_partition[of mg_ejemplo ?gs "''hsapiens''" ?out ?out_mt w0, OF h1 h2 h3] v
  show ?thesis
    by simp
qed

text \<open>
  The claim as stated, for every list and every pair of responses, fails in three ways: with
  no identifier resolved the function does not return; an identifier whose term got no
  record (the answer is shorter than the query) lands in neither list; an identifier given
  twice, resolved once and not the other time, lands in both.
\<close>

theorem validar_partition_counterexample:
  "fst (validar_y_convertir_genes mg_nada [''FOO''] ''hsapiens'' w0) = SysExit 1
   \<and> fst (validar_y_convertir_genes mg_corto [''A'', ''B''] ''hsapiens'' w0) =
       Returns \<lparr>validos = [''X''], mapping = [(''A'', ''X'')], no_encontrados = [],
                advertencias = []\<rparr>
   \<and> fst (validar_y_convertir_genes mg_primero [''A'', ''A''] ''hsapiens'' w0) =
       Returns \<lparr>validos = [''X''], mapping = [(''A'', ''X'')], no_encontrados = [''A''],
                advertencias = [aviso_no_encontrado ''A'']\<rparr>"
proof -
  have sp: "species_of ''hsapiens'' = ''human''"
    by code_simp
  have 1: "fst (validar_y_convertir_genes mg_nada [''FOO''] ''hsapiens'' w0) = SysExit 1"
    by (simp add: validar_y_convertir_genes_def Let_def sp mg_nada_def hallado_def
        no_hallado_def locals_init_def variantes_mt_def paso_fallo_def)
  have 2: "fst (validar_y_convertir_genes mg_corto [''A'', ''B''] ''hsapiens'' w0) =
       Returns \<lparr>validos = [''X''], mapping = [(''A'', ''X'')], no_encontrados = [],
                advertencias = []\<rparr>"
    by (simp add: validar_y_convertir_genes_def Let_def sp mg_corto_def hallado_def
        no_hallado_def locals_init_def variantes_mt_def paso_fallo_def)
  have 3: "fst (validar_y_convertir_genes mg_primero [''A'', ''A''] ''hsapiens'' w0) =
       Returns \<lparr>validos = [''X''], mapping = [(''A'', ''X'')], no_encontrados = [''A''],
                advertencias = [aviso_no_encontrado ''A'']\<rparr>"
    by (simp add: validar_y_convertir_genes_def Let_def sp mg_primero_def hallado_def
        no_hallado_def locals_init_def variantes_mt_def paso_fallo_def)
  from 1 2 3 show ?thesis by simp
qed

section \<open>The retry with the mitochondrial prefix\<close>












section \<open>The enrichment query and the export in closed form\<close>

lemma analizar_genes_eq:
  "analizar_genes gp gs org w =
     (tabla_de (gp org gs sources), w\<lparr>gp_queries := gp_queries w @ [(org, gs, sources)]\<rparr>)"
  by (simp add: analizar_genes_def tabla_de_def Let_def split: sum.splits option.splits)

lemma df_empty_pd_DataFrame: "df_empty pd_DataFrame"
  by (simp add: df_empty_def pd_DataFrame_def)

lemma exportar_fuentes_ok:
  assumes "''source'' \<in> set (columns df)"
  shows "exportar_fuentes bs df output_dir w =
           (Returns (), w\<lparr>written := written w @ concat (map (archivo_fuente df output_dir) bs)\<rparr>)"
  using assms
proof (induction bs arbitrary: w)
  case Nil
  then show ?case by simp
next
  case (Cons b bs)
  obtain source filename where b: "b = (source, filename)"
    by (cases b)
  show ?case
    using Cons.prems Cons.IH unfolding b
    by (simp add: archivo_fuente_def)
qed

lemma exportar_fuentes_keyerror:
  assumes "''source'' \<notin> set (columns df)" "bs \<noteq> []"
  shows "exportar_fuentes bs df output_dir w = (Raises KeyError, w)"
proof -
  from assms(2) obtain source filename rest where "bs = (source, filename) # rest"
    by (cases bs) auto
  with assms(1) show ?thesis by simp
qed

lemma exportar_resultados_empty:
  assumes "df_empty df"
  shows "exportar_resultados df v output_dir w =
     (Returns (),
      w\<lparr>made_dirs := made_dirs w @ [output_dir],
        written := written w @ [(path_join output_dir ''validacion_genes.csv'', CSV (df_validacion v))]\<rparr>)"
  using assms by (simp add: exportar_resultados_def Let_def)

lemma exportar_resultados_ok:
  assumes "\<not> df_empty df" "''source'' \<in> set (columns df)"
  shows "exportar_resultados df v output_dir w =
     (Returns (),
      w\<lparr>made_dirs := made_dirs w @ [output_dir],
        written := written w
          @ [(path_join output_dir ''validacion_genes.csv'', CSV (df_validacion v)),
             (path_join output_dir ''resultados_completos.csv'', CSV df),
             (path_join output_dir ''resultados_completos.xlsx'', XLSX df)]
          @ concat (map (archivo_fuente df output_dir) bases_datos)\<rparr>)"
  using assms by (simp add: exportar_resultados_def Let_def exportar_fuentes_ok)

lemma exportar_resultados_keyerror:
  assumes "\<not> df_empty df" "''source'' \<notin> set (columns df)"
  shows "exportar_resultados df v output_dir w =
     (Raises KeyError,
      w\<lparr>made_dirs := made_dirs w @ [output_dir],
        written := written w
          @ [(path_join output_dir ''validacion_genes.csv'', CSV (df_validacion v)),
             (path_join output_dir ''resultados_completos.csv'', CSV df),
             (path_join output_dir ''resultados_completos.xlsx'', XLSX df)]\<rparr>)"
proof -
  have "bases_datos \<noteq> []"
    by (simp add: bases_datos_def)
  with assms show ?thesis
    by (simp add: exportar_resultados_def Let_def exportar_fuentes_keyerror)
qed

lemma main_after_validation:
  assumes "genes_input leer a = Returns (Some gs)"
      and "validar_y_convertir_genes mg gs (arg_organism a) w = (Returns v, w1)"
  shows "main leer mg gp a w =
     exportar_resultados (tabla_de (gp (arg_organism a) (validos v) sources)) v (arg_output a)
       (w1\<lparr>gp_queries := gp_queries w1 @ [(arg_organism a, validos v, sources)]\<rparr>)"
  using assms by (simp add: main_def analizar_genes_eq)


section \<open>What the export always does\<close>

lemma exportar_resultados_effects:
  "fst (exportar_resultados df v output_dir w) \<noteq> SysExit code
   \<and> mg_queries (snd (exportar_resultados df v output_dir w)) = mg_queries w
   \<and> gp_queries (snd (exportar_resultados df v output_dir w)) = gp_queries w
   \<and> (\<exists>rest. written (snd (exportar_resultados df v output_dir w)) =
          written w @ (path_join output_dir ''validacion_genes.csv'', CSV (df_validacion v)) # rest)"
proof (cases "df_empty df")
  case True
  then show ?thesis
    by (simp add: exportar_resultados_empty)
next
  case False
  then show ?thesis
    by (cases "''source'' \<in> set (columns df)")
      (simp_all add: exportar_resultados_ok exportar_resultados_keyerror)
qed

lemma genes_input_args_genes: "genes_input leer (args_genes gs) = Returns (Some gs)"
  by (simp add: genes_input_def args_genes_def)

lemma species_hsapiens: "species_of ''hsapiens'' = ''human''"
  by code_simp

section \<open>The lookup service out of reach\<close>

lemma map_of_identidad:
  "map_of (fold (\<lambda>g. AList.update g g) gs al) = map_of al ++ (\<lambda>g. if g \<in> set gs then Some g else None)"
proof (induction gs arbitrary: al)
  case Nil
  then show ?case by (simp add: map_add_def)
next
  case (Cons a gs)
  show ?case
    by (rule ext) (simp add: Cons.IH update_conv' map_add_def)
qed

text \<open>
  Claim C8. When the first query raises, \<^verbatim>\<open>validar_y_convertir_genes\<close> returns at once:
  \<^verbatim>\<open>validos\<close> is the input list, \<^verbatim>\<open>mapping\<close> sends each input identifier to itself and has
  no other key, \<^verbatim>\<open>no_encontrados\<close> is empty and one warning is recorded. No retry is sent,
  and \<^verbatim>\<open>main\<close> goes on to the enrichment query with the identifiers as they were given and
  then to the export.
\<close>

theorem validar_sin_conexion:
  assumes "mg gs (species_of org) = Inl e"
  shows "\<exists>v. validar_y_convertir_genes mg gs org w =
               (Returns v, w\<lparr>mg_queries := mg_queries w @ [(gs, species_of org)]\<rparr>)
           \<and> validos v = gs
           \<and> (\<forall>g. map_of (mapping v) g = (if g \<in> set gs then Some g else None))
           \<and> no_encontrados v = []
           \<and> advertencias v = [aviso_sin_conexion]
           \<and> (\<forall>leer gp a. genes_input leer a = Returns (Some gs) \<and> arg_organism a = org \<longrightarrow>
                 main leer mg gp a w =
                   exportar_resultados (tabla_de (gp org gs sources)) v (arg_output a)
                     (w\<lparr>mg_queries := mg_queries w @ [(gs, species_of org)],
                        gp_queries := gp_queries w @ [(org, gs, sources)]\<rparr>))"
proof -
  let ?v = "\<lparr>validos = gs, mapping = fold (\<lambda>g. AList.update g g) gs [],
             no_encontrados = [], advertencias = [aviso_sin_conexion]\<rparr>"
  let ?w1 = "w\<lparr>mg_queries := mg_queries w @ [(gs, species_of org)]\<rparr>"
  have v: "validar_y_convertir_genes mg gs org w = (Returns ?v, ?w1)"
    using assms by (rule validar_unreachable)
  have m: "\<forall>g. map_of (mapping ?v) g = (if g \<in> set gs then Some g else None)"
    by (simp add: map_of_identidad)
  have "main leer mg gp a w =
          exportar_resultados (tabla_de (gp org gs sources)) ?v (arg_output a)
            (w\<lparr>mg_queries := mg_queries w @ [(gs, species_of org)],
               gp_queries := gp_queries w @ [(org, gs, sources)]\<rparr>)"
    if "genes_input leer a = Returns (Some gs)" "arg_organism a = org" for leer gp a
    using main_after_validation[where leer=leer and a=a and gs=gs and mg=mg and w=w and v="?v"
        and ?w1.0="?w1" and gp=gp] that v
    by simp
  with v m show ?thesis
    by (intro exI[of _ ?v]) simp
qed

theorem validar_sin_conexion_witness:
  "mg_caido [''FOO'', ''BAR''] (species_of ''hsapiens'') = Inl ''connection refused''
   \<and> fst (validar_y_convertir_genes mg_caido [''FOO'', ''BAR''] ''hsapiens'' w0) =
       Returns \<lparr>validos = [''FOO'', ''BAR''], mapping = [(''FOO'', ''FOO''), (''BAR'', ''BAR'')],
                no_encontrados = [], advertencias = [aviso_sin_conexion]\<rparr>
   \<and> genes_input leer_nada (args_genes [''FOO'', ''BAR'']) = Returns (Some [''FOO'', ''BAR''])
   \<and> gp_queries (snd (main leer_nada mg_caido gp_kegg (args_genes [''FOO'', ''BAR'']) w0)) =
       [(''hsapiens'', [''FOO'', ''BAR''], sources)]"
proof -
  let ?gs = "[''FOO'', ''BAR'']"
  have h: "mg_caido ?gs (species_of ''hsapiens'') = Inl ''connection refused''"
    by (simp add: mg_caido_def)
  have g: "genes_input leer_nada (args_genes ?gs) = Returns (Some ?gs)"
    by (rule genes_input_args_genes)
  have o: "arg_organism (args_genes ?gs) = ''hsapiens''"
    by (simp add: args_genes_def)
  have r: "fst (validar_y_convertir_genes mg_caido ?gs ''hsapiens'' w0) =
       Returns \<lparr>validos = ?gs, mapping = [(''FOO'', ''FOO''), (''BAR'', ''BAR'')],
                no_encontrados = [], advertencias = [aviso_sin_conexion]\<rparr>"
    by (simp add: validar_y_convertir_genes_def Let_def mg_caido_def)
  from validar_sin_conexion[of mg_caido ?gs "''hsapiens''" "''connection refused''" w0, OF h]
  obtain v where v: "main leer_nada mg_caido gp_kegg (args_genes ?gs) w0 =
      exportar_resultados (tabla_de (gp_kegg ''hsapiens'' ?gs sources)) v (arg_output (args_genes ?gs))
        (w0\<lparr>mg_queries := mg_queries w0 @ [(?gs, species_of ''hsapiens'')],
            gp_queries := gp_queries w0 @ [(''hsapiens'', ?gs, sources)]\<rparr>)"
    using g o by blast
  have "gp_queries (snd (main leer_nada mg_caido gp_kegg (args_genes ?gs) w0)) =
       [(''hsapiens'', ?gs, sources)]"
    unfolding v by (simp add: exportar_resultados_effects w0_def)
  with h g r show ?thesis
    by simp
qed

section \<open>The process when the lookup service is out of reach\<close>




section \<open>No enriched term\<close>

lemma validar_keeps_files:
  "written (snd (validar_y_convertir_genes mg gs org w)) = written w
   \<and> made_dirs (snd (validar_y_convertir_genes mg gs org w)) = made_dirs w
   \<and> gp_queries (snd (validar_y_convertir_genes mg gs org w)) = gp_queries w"
  by (simp add: validar_y_convertir_genes_def Let_def split: sum.splits)



lemma validar_ejemplo:
  "validar_y_convertir_genes mg_ejemplo [''COX4I2'', ''ND1'', ''FOO''] ''hsapiens'' w0 =
     (Returns validacion_ejemplo,
      w0\<lparr>mg_queries := [([''COX4I2'', ''ND1'', ''FOO''], ''human''),
                         ([''MT-ND1'', ''MT-FOO''], ''human'')]\<rparr>)"
  by (simp add: validar_y_convertir_genes_def Let_def species_hsapiens mg_ejemplo_def hallado_def
      no_hallado_def locals_init_def variantes_mt_def paso_fallo_def validacion_ejemplo_def w0_def)


section \<open>The files of a successful run\<close>

lemma main_returns:
  assumes "fst (main leer mg gp a w) = Returns ()"
  shows "\<exists>gs v w1. genes_input leer a = Returns (Some gs)
           \<and> validar_y_convertir_genes mg gs (arg_organism a) w = (Returns v, w1)"
proof (cases "genes_input leer a")
  case (Returns x)
  show ?thesis
  proof (cases x)
    case None
    with Returns assms show ?thesis by (simp add: main_def)
  next
    case (Some gs)
    obtain r w1 where v: "validar_y_convertir_genes mg gs (arg_organism a) w = (r, w1)"
      by (cases "validar_y_convertir_genes mg gs (arg_organism a) w")
    show ?thesis
    proof (cases r)
      case (Returns v')
      with v Some \<open>genes_input leer a = Returns x\<close> show ?thesis by blast
    next
      case (SysExit c)
      with v Some \<open>genes_input leer a = Returns x\<close> assms show ?thesis by (simp add: main_def)
    next
      case (Raises e)
      with v Some \<open>genes_input leer a = Returns x\<close> assms show ?thesis by (simp add: main_def)
    qed
  qed
next
  case (SysExit c)
  with assms show ?thesis by (simp add: main_def)
next
  case (Raises e)
  with assms show ?thesis by (simp add: main_def)
qed

lemma archivos_fuentes_expanded:
  "concat (map (archivo_fuente df output_dir) bases_datos) =
     (if df_empty (df_source df ''GO:BP'') then []
      else [(path_join output_dir ''GO_BP_resultados.csv'', CSV (df_source df ''GO:BP''))])
     @ (if df_empty (df_source df ''KEGG'') then []
        else [(path_join output_dir ''KEGG_resultados.csv'', CSV (df_source df ''KEGG''))])
     @ (if df_empty (df_source df ''REAC'') then []
        else [(path_join output_dir ''REAC_resultados.csv'', CSV (df_source df ''REAC''))])"
  by (simp add: bases_datos_def archivo_fuente_def)

text \<open>
  Claim C5, as amended. A run that ends with \<^verbatim>\<open>main\<close> returning has read a gene list and
  validated it, and the files it wrote are, in this order: the validation file, always; when
  the table of enriched terms is not empty, \<^verbatim>\<open>resultados_completos.csv\<close> and
  \<^verbatim>\<open>resultados_completos.xlsx\<close> holding that table; and then, for each of GO:BP, KEGG and REAC
  that has at least one row in the table, the file of that source holding its rows.
\<close>

theorem archivos_de_una_corrida:
  assumes "fst (main leer mg gp a w) = Returns ()"
  shows "\<exists>gs v df.
           genes_input leer a = Returns (Some gs)
         \<and> fst (validar_y_convertir_genes mg gs (arg_organism a) w) = Returns v
         \<and> df = tabla_de (gp (arg_organism a) (validos v) sources)
         \<and> written (snd (main leer mg gp a w)) =
             written w
             @ [(path_join (arg_output a) ''validacion_genes.csv'', CSV (df_validacion v))]
             @ (if df_empty df then []
                else [(path_join (arg_output a) ''resultados_completos.csv'', CSV df),
                      (path_join (arg_output a) ''resultados_completos.xlsx'', XLSX df)]
                  @ (if df_empty (df_source df ''GO:BP'') then []
                     else [(path_join (arg_output a) ''GO_BP_resultados.csv'', CSV (df_source df ''GO:BP''))])
                  @ (if df_empty (df_source df ''KEGG'') then []
                     else [(path_join (arg_output a) ''KEGG_resultados.csv'', CSV (df_source df ''KEGG''))])
                  @ (if df_empty (df_source df ''REAC'') then []
                     else [(path_join (arg_output a) ''REAC_resultados.csv'', CSV (df_source df ''REAC''))]))"
proof -
  from main_returns[OF assms] obtain gs v w1 where
    gi: "genes_input leer a = Returns (Some gs)" and
    val: "validar_y_convertir_genes mg gs (arg_organism a) w = (Returns v, w1)"
    by blast
  define df where "df = tabla_de (gp (arg_organism a) (validos v) sources)"
  let ?w2 = "w1\<lparr>gp_queries := gp_queries w1 @ [(arg_organism a, validos v, sources)]\<rparr>"
  have m: "main leer mg gp a w = exportar_resultados df v (arg_output a) ?w2"
    unfolding df_def using gi val by (rule main_after_validation)
  have w1: "written w1 = written w"
    using validar_keeps_files[of mg gs "arg_organism a" w] val by simp
  have "written (snd (main leer mg gp a w)) =
             written w
             @ [(path_join (arg_output a) ''validacion_genes.csv'', CSV (df_validacion v))]
             @ (if df_empty df then []
                else [(path_join (arg_output a) ''resultados_completos.csv'', CSV df),
                      (path_join (arg_output a) ''resultados_completos.xlsx'', XLSX df)]
                  @ (if df_empty (df_source df ''GO:BP'') then []
                     else [(path_join (arg_output a) ''GO_BP_resultados.csv'', CSV (df_source df ''GO:BP''))])
                  @ (if df_empty (df_source df ''KEGG'') then []
                     else [(path_join (arg_output a) ''KEGG_resultados.csv'', CSV (df_source df ''KEGG''))])
                  @ (if df_empty (df_source df ''REAC'') then []
                     else [(path_join (arg_output a) ''REAC_resultados.csv'', CSV (df_source df ''REAC''))]))"
  proof (cases "df_empty df")
    case True
    then show ?thesis
      by (simp add: m exportar_resultados_empty w1)
  next
    case False
    have "''source'' \<in> set (columns df)"
    proof (rule ccontr)
      assume "''source'' \<notin> set (columns df)"
      with False have "fst (main leer mg gp a w) = Raises KeyError"
        by (simp add: m exportar_resultados_keyerror)
      with assms show False by simp
    qed
    with False show ?thesis
      by (simp add: m exportar_resultados_ok w1 archivos_fuentes_expanded)
  qed
  with gi val df_def show ?thesis
    by (intro exI[of _ gs] exI[of _ v] exI[of _ df]) simp
qed

lemma main_ejemplo_validado:
  "main leer_nada mg_ejemplo gp (args_genes [''COX4I2'', ''ND1'', ''FOO'']) w0 =
     exportar_resultados (tabla_de (gp ''hsapiens'' [''COX4I2'', ''MT-ND1''] sources))
       validacion_ejemplo ''results''
       \<lparr>mg_queries = [([''COX4I2'', ''ND1'', ''FOO''], ''human''), ([''MT-ND1'', ''MT-FOO''], ''human'')],
        gp_queries = [(''hsapiens'', [''COX4I2'', ''MT-ND1''], sources)],
        made_dirs = [], written = []\<rparr>"
proof -
  let ?gs = "[''COX4I2'', ''ND1'', ''FOO'']"
  let ?w1 = "w0\<lparr>mg_queries := [(?gs, ''human''), ([''MT-ND1'', ''MT-FOO''], ''human'')]\<rparr>"
  have a: "arg_organism (args_genes ?gs) = ''hsapiens''" "arg_output (args_genes ?gs) = ''results''"
    by (simp_all add: args_genes_def)
  have vv: "validos validacion_ejemplo = [''COX4I2'', ''MT-ND1'']"
    by (simp add: validacion_ejemplo_def)
  have v: "validar_y_convertir_genes mg_ejemplo ?gs (arg_organism (args_genes ?gs)) w0 =
      (Returns validacion_ejemplo, ?w1)"
    unfolding a by (rule validar_ejemplo)
  have "main leer_nada mg_ejemplo gp (args_genes ?gs) w0 =
      exportar_resultados
        (tabla_de (gp (arg_organism (args_genes ?gs)) (validos validacion_ejemplo) sources))
        validacion_ejemplo (arg_output (args_genes ?gs))
        (?w1\<lparr>gp_queries := gp_queries ?w1
             @ [(arg_organism (args_genes ?gs), validos validacion_ejemplo, sources)]\<rparr>)"
    using genes_input_args_genes[of leer_nada ?gs] v by (rule main_after_validation)
  also have "(?w1\<lparr>gp_queries := gp_queries ?w1
             @ [(arg_organism (args_genes ?gs), validos validacion_ejemplo, sources)]\<rparr>) =
       \<lparr>mg_queries = [(?gs, ''human''), ([''MT-ND1'', ''MT-FOO''], ''human'')],
        gp_queries = [(''hsapiens'', [''COX4I2'', ''MT-ND1''], sources)],
        made_dirs = [], written = []\<rparr>"
    by (simp add: w0_def a vv)
  finally show ?thesis
    by (simp only: a vv)
qed


lemma paths_results:
  "path_join ''results'' ''validacion_genes.csv'' = ''results/validacion_genes.csv''"
  "path_join ''results'' ''resultados_completos.csv'' = ''results/resultados_completos.csv''"
  "path_join ''results'' ''resultados_completos.xlsx'' = ''results/resultados_completos.xlsx''"
  "path_join ''results'' ''KEGG_resultados.csv'' = ''results/KEGG_resultados.csv''"
  by (simp_all add: path_join_def)

lemma tabla_kegg: "tabla_de (gp_kegg org q srcs) = df_kegg"
  by (simp add: tabla_de_def gp_kegg_def df_kegg_def df_empty_def)

lemma tabla_vacio: "tabla_de (gp_vacio org q srcs) = pd_DataFrame"
  by (simp add: tabla_de_def gp_vacio_def df_empty_def)

lemma df_kegg_facts:
  "\<not> df_empty df_kegg" "''source'' \<in> set (columns df_kegg)"
  "df_source df_kegg ''KEGG'' = df_kegg" "df_empty (df_source df_kegg ''GO:BP'')"
  "df_empty (df_source df_kegg ''REAC'')"
  by (simp_all add: df_source_def df_kegg_def df_empty_def)

lemma main_ejemplo_kegg:
  "main leer_nada mg_ejemplo gp_kegg (args_genes [''COX4I2'', ''ND1'', ''FOO'']) w0 =
     (Returns (),
      \<lparr>mg_queries = [([''COX4I2'', ''ND1'', ''FOO''], ''human''), ([''MT-ND1'', ''MT-FOO''], ''human'')],
       gp_queries = [(''hsapiens'', [''COX4I2'', ''MT-ND1''], sources)],
       made_dirs = [''results''],
       written = [(''results/validacion_genes.csv'', CSV (df_validacion validacion_ejemplo)),
                  (''results/resultados_completos.csv'', CSV df_kegg),
                  (''results/resultados_completos.xlsx'', XLSX df_kegg),
                  (''results/KEGG_resultados.csv'', CSV df_kegg)]\<rparr>)"
  unfolding main_ejemplo_validado tabla_kegg
    exportar_resultados_ok[OF df_kegg_facts(1) df_kegg_facts(2)] archivos_fuentes_expanded
  by (simp add: df_kegg_facts paths_results)

lemma main_ejemplo_vacio:
  "main leer_nada mg_ejemplo gp_vacio (args_genes [''COX4I2'', ''ND1'', ''FOO'']) w0 =
     (Returns (),
      \<lparr>mg_queries = [([''COX4I2'', ''ND1'', ''FOO''], ''human''), ([''MT-ND1'', ''MT-FOO''], ''human'')],
       gp_queries = [(''hsapiens'', [''COX4I2'', ''MT-ND1''], sources)],
       made_dirs = [''results''],
       written = [(''results/validacion_genes.csv'', CSV (df_validacion validacion_ejemplo))]\<rparr>)"
  unfolding main_ejemplo_validado tabla_vacio exportar_resultados_empty[OF df_empty_pd_DataFrame]
  by (simp add: paths_results)


theorem archivos_de_una_corrida_witness:
  "fst (main leer_nada mg_ejemplo gp_kegg (args_genes [''COX4I2'', ''ND1'', ''FOO'']) w0) = Returns ()
   \<and> written (snd (main leer_nada mg_ejemplo gp_kegg (args_genes [''COX4I2'', ''ND1'', ''FOO'']) w0)) =
       [(''results/validacion_genes.csv'', CSV (df_validacion validacion_ejemplo)),
        (''results/resultados_completos.csv'', CSV df_kegg),
        (''results/resultados_completos.xlsx'', XLSX df_kegg),
        (''results/KEGG_resultados.csv'', CSV df_kegg)]
   \<and> (\<exists>gs v df.
         genes_input leer_nada (args_genes [''COX4I2'', ''ND1'', ''FOO'']) = Returns (Some gs)
       \<and> fst (validar_y_convertir_genes mg_ejemplo gs
                (arg_organism (args_genes [''COX4I2'', ''ND1'', ''FOO''])) w0) = Returns v
       \<and> df = tabla_de (gp_kegg (arg_organism (args_genes [''COX4I2'', ''ND1'', ''FOO''])) (validos v) sources)
       \<and> written (snd (main leer_nada mg_ejemplo gp_kegg (args_genes [''COX4I2'', ''ND1'', ''FOO'']) w0)) =
             written w0
             @ [(path_join (arg_output (args_genes [''COX4I2'', ''ND1'', ''FOO''])) ''validacion_genes.csv'',
                 CSV (df_validacion v))]
             @ (if df_empty df then []
                else [(path_join (arg_output (args_genes [''COX4I2'', ''ND1'', ''FOO''])) ''resultados_completos.csv'', CSV df),
                      (path_join (arg_output (args_genes [''COX4I2'', ''ND1'', ''FOO''])) ''resultados_completos.xlsx'', XLSX df)]
                  @ (if df_empty (df_source df ''GO:BP'') then []
                     else [(path_join (arg_output (args_genes [''COX4I2'', ''ND1'', ''FOO''])) ''GO_BP_resultados.csv'',
                            CSV (df_source df ''GO:BP''))])
                  @ (if df_empty (df_source df ''KEGG'') then []
                     else [(path_join (arg_output (args_genes [''COX4I2'', ''ND1'', ''FOO''])) ''KEGG_resultados.csv'',
                            CSV (df_source df ''KEGG''))])
                  @ (if df_empty (df_source df ''REAC'') then []
                     else [(path_join (arg_output (args_genes [''COX4I2'', ''ND1'', ''FOO''])) ''REAC_resultados.csv'',
                            CSV (df_source df ''REAC''))])))"
proof (intro conjI)
  show h: "fst (main leer_nada mg_ejemplo gp_kegg (args_genes [''COX4I2'', ''ND1'', ''FOO'']) w0) = Returns ()"
    by (simp only: main_ejemplo_kegg fst_conv)
  show "written (snd (main leer_nada mg_ejemplo gp_kegg (args_genes [''COX4I2'', ''ND1'', ''FOO'']) w0)) =
       [(''results/validacion_genes.csv'', CSV (df_validacion validacion_ejemplo)),
        (''results/resultados_completos.csv'', CSV df_kegg),
        (''results/resultados_completos.xlsx'', XLSX df_kegg),
        (''results/KEGG_resultados.csv'', CSV df_kegg)]"
    unfolding main_ejemplo_kegg snd_conv by (rule world.select_convs)
  from h show "\<exists>gs v df.
         genes_input leer_nada (args_genes [''COX4I2'', ''ND1'', ''FOO'']) = Returns (Some gs)
       \<and> fst (validar_y_convertir_genes mg_ejemplo gs
                (arg_organism (args_genes [''COX4I2'', ''ND1'', ''FOO''])) w0) = Returns v
       \<and> df = tabla_de (gp_kegg (arg_organism (args_genes [''COX4I2'', ''ND1'', ''FOO''])) (validos v) sources)
       \<and> written (snd (main leer_nada mg_ejemplo gp_kegg (args_genes [''COX4I2'', ''ND1'', ''FOO'']) w0)) =
             written w0
             @ [(path_join (arg_output (args_genes [''COX4I2'', ''ND1'', ''FOO''])) ''validacion_genes.csv'',
                 CSV (df_validacion v))]
             @ (if df_empty df then []
                else [(path_join (arg_output (args_genes [''COX4I2'', ''ND1'', ''FOO''])) ''resultados_completos.csv'', CSV df),
                      (path_join (arg_output (args_genes [''COX4I2'', ''ND1'', ''FOO''])) ''resultados_completos.xlsx'', XLSX df)]
                  @ (if df_empty (df_source df ''GO:BP'') then []
                     else [(path_join (arg_output (args_genes [''COX4I2'', ''ND1'', ''FOO''])) ''GO_BP_resultados.csv'',
                            CSV (df_source df ''GO:BP''))])
                  @ (if df_empty (df_source df ''KEGG'') then []
                     else [(path_join (arg_output (args_genes [''COX4I2'', ''ND1'', ''FOO''])) ''KEGG_resultados.csv'',
                            CSV (df_source df ''KEGG''))])
                  @ (if df_empty (df_source df ''REAC'') then []
                     else [(path_join (arg_output (args_genes [''COX4I2'', ''ND1'', ''FOO''])) ''REAC_resultados.csv'',
                            CSV (df_source df ''REAC''))]))"
    by (rule archivos_de_una_corrida)
qed

text \<open>
  The claim as stated has every successful run write all six files. A run whose enrichment
  query finds no significant term is successful and writes the validation file alone.
\<close>

theorem archivos_de_una_corrida_counterexample:
  "fst (main leer_nada mg_ejemplo gp_vacio (args_genes [''COX4I2'', ''ND1'', ''FOO'']) w0) = Returns ()
   \<and> map fst (written (snd (main leer_nada mg_ejemplo gp_vacio (args_genes [''COX4I2'', ''ND1'', ''FOO'']) w0))) =
       [''results/validacion_genes.csv'']"
  by (simp add: main_ejemplo_vacio)

section \<open>The table goes to the file as it came\<close>








section \<open>Unresolved identifiers and the continuation of the run\<close>










section \<open>The command line: the group and the defaults\<close>























lemmas parse_defs = parse_args_def parser_main_def known_token_def find_argument_def is_value_def
  is_help_def conflicts_def store_def finish_def


lemma parse_ejemplo_rechazos:
  "parse_args parser_main [''-i'', ''genes.txt'', ''-g'', ''COX4I2''] = ParserExit 2"
  "parse_args parser_main [''-o'', ''out''] = ParserExit 2"
  by (simp_all add: parse_defs)



end
